theory Spec2Isabelle
  imports Main "HOL-Library.Word"
begin

unbundle bit_operations_syntax

section \<open>Span model (Fog/G2d/Rasterizer/Span\_p.h)\<close>

text \<open>
  A failed \<open>FOG_ASSERT\<close> of a debug build, and a read past the end of a static table,
  are results of their own.
\<close>

datatype error = AssertionFailure | OutOfBounds

text \<open>
  Modelled from the spec: the \<open>SPAN\<close> enumeration lives in Fog/G2d/Global/Constants.h,
  which is not part of the sources at hand. The values are the ones the index comments of
  both \<open>advanceData\<close> tables give (00 - SPAN\_C up to 05 - SPAN\_ARGBXX\_GLYPH, 06 the
  end marker); the constant type is the only one below the first variant type.
\<close>

definition SPAN_C :: "32 word" where "SPAN_C = 0"
definition SPAN_A8_GLYPH :: "32 word" where "SPAN_A8_GLYPH = 1"
definition SPAN_AX_GLYPH :: "32 word" where "SPAN_AX_GLYPH = 2"
definition SPAN_AX_EXTRA :: "32 word" where "SPAN_AX_EXTRA = 3"
definition SPAN_ARGB32_GLYPH :: "32 word" where "SPAN_ARGB32_GLYPH = 4"
definition SPAN_ARGBXX_GLYPH :: "32 word" where "SPAN_ARGBXX_GLYPH = 5"
definition SPAN_COUNT :: "32 word" where "SPAN_COUNT = 6"
definition SPAN_V_BEGIN :: "32 word" where "SPAN_V_BEGIN = SPAN_A8_GLYPH"

text \<open>
  The struct: \<open>_x0\<close> is a 29-bit field, \<open>_type\<close> a 3-bit field, \<open>_x1\<close> a full
  \<open>uint32_t\<close>. The union of \<open>_mask\<close> and \<open>_mask_uint\<close> and the \<open>_next\<close> link are
  pointer-sized; the pointer width is the type parameter \<open>'p\<close> (\<open>sysuint_t\<close> is
  \<open>'p word\<close>), and \<open>NULL\<close> is 0.
\<close>

record (overloaded) ('p::len) Span =
  m_x0 :: "29 word"
  m_type :: "3 word"
  m_x1 :: "32 word"
  m_mask_uint :: "'p word"
  m_next :: "'p word"

text \<open>
  A C++ \<open>int\<close> is a \<open>32 word\<close> read by \<open>sint\<close>; \<open>uint\<close> and \<open>uint32_t\<close> are
  a \<open>32 word\<close> read by \<open>unat\<close>. In \<open>_x0 < _x1\<close> and \<open>_x1 - _x0\<close> the bit-field is
  promoted and then converted to \<open>unsigned\<close>, so both are computed on 32 bits.
\<close>

definition isValid :: "('p::len) Span \<Rightarrow> bool" where
  "isValid s \<longleftrightarrow> (ucast (m_x0 s) :: 32 word) < m_x1 s \<and> m_mask_uint s \<noteq> 0"

definition getType :: "('p::len) Span \<Rightarrow> 32 word" where
  "getType s = ucast (m_type s)"

definition getX0 :: "('p::len) Span \<Rightarrow> 32 word" where
  "getX0 s = ucast (m_x0 s)"

definition getX1 :: "('p::len) Span \<Rightarrow> 32 word" where
  "getX1 s = m_x1 s"

definition getLength :: "('p::len) Span \<Rightarrow> 32 word" where
  "getLength s = m_x1 s - ucast (m_x0 s)"

definition setType :: "32 word \<Rightarrow> ('p::len) Span \<Rightarrow> error + 'p Span" where
  "setType t s =
     (if t < SPAN_COUNT then Inr (s\<lparr>m_type := ucast t\<rparr>) else Inl AssertionFailure)"

definition setX0 :: "32 word \<Rightarrow> ('p::len) Span \<Rightarrow> error + 'p Span" where
  "setX0 x0 s =
     (if 0 \<le> sint x0 then Inr (s\<lparr>m_x0 := ucast x0\<rparr>) else Inl AssertionFailure)"

definition setX1 :: "32 word \<Rightarrow> ('p::len) Span \<Rightarrow> error + 'p Span" where
  "setX1 x1 s =
     (if 0 \<le> sint x1 then Inr (s\<lparr>m_x1 := x1\<rparr>) else Inl AssertionFailure)"

definition setPosition :: "32 word \<Rightarrow> 32 word \<Rightarrow> ('p::len) Span \<Rightarrow> error + 'p Span" where
  "setPosition x0 x1 s =
     (if \<not> 0 \<le> sint x0 then Inl AssertionFailure
      else if \<not> 0 \<le> sint x1 then Inl AssertionFailure
      else if \<not> sint x0 < sint x1 then Inl AssertionFailure
      else Inr (s\<lparr>m_x0 := ucast x0, m_x1 := x1\<rparr>))"

definition setPositionAndType ::
  "32 word \<Rightarrow> 32 word \<Rightarrow> 32 word \<Rightarrow> ('p::len) Span \<Rightarrow> error + 'p Span" where
  "setPositionAndType x0 x1 t s =
     (if \<not> 0 \<le> sint x0 then Inl AssertionFailure
      else if \<not> 0 \<le> sint x1 then Inl AssertionFailure
      else if \<not> sint x0 < sint x1 then Inl AssertionFailure
      else Inr (s\<lparr>m_x0 := ucast x0, m_x1 := x1, m_type := ucast t\<rparr>))"

definition isConst :: "('p::len) Span \<Rightarrow> bool" where
  "isConst s \<longleftrightarrow> (ucast (m_type s) :: 32 word) < SPAN_V_BEGIN"

definition isVariant :: "('p::len) Span \<Rightarrow> bool" where
  "isVariant s \<longleftrightarrow> SPAN_V_BEGIN \<le> (ucast (m_type s) :: 32 word)"


text \<open>The generic, variant and constant mask accessors; the constant ones are those of
  \<open>Span8\<close> and of \<open>Span16\<close>, which differ only in the opaque value.\<close>

definition getGenericMask :: "('p::len) Span \<Rightarrow> 'p word" where
  "getGenericMask s = m_mask_uint s"

definition setGenericMask :: "'p word \<Rightarrow> ('p::len) Span \<Rightarrow> 'p Span" where
  "setGenericMask msk s = s\<lparr>m_mask_uint := msk\<rparr>"

definition getVariantMask :: "('p::len) Span \<Rightarrow> error + 'p word" where
  "getVariantMask s = (if isVariant s then Inr (m_mask_uint s) else Inl AssertionFailure)"

definition setVariantMask :: "'p word \<Rightarrow> ('p::len) Span \<Rightarrow> error + 'p Span" where
  "setVariantMask msk s =
     (if isVariant s then Inr (s\<lparr>m_mask_uint := msk\<rparr>) else Inl AssertionFailure)"

definition getConstMask8 :: "('p::len) Span \<Rightarrow> error + 32 word" where
  "getConstMask8 s = (if isConst s then Inr (ucast (m_mask_uint s)) else Inl AssertionFailure)"

definition isConstMaskOpaque8 :: "('p::len) Span \<Rightarrow> error + bool" where
  "isConstMaskOpaque8 s =
     (if isConst s then Inr (m_mask_uint s = 0x100) else Inl AssertionFailure)"

definition setConstMask8 :: "32 word \<Rightarrow> ('p::len) Span \<Rightarrow> error + 'p Span" where
  "setConstMask8 msk s =
     (if isConst s then Inr (s\<lparr>m_mask_uint := ucast msk\<rparr>) else Inl AssertionFailure)"

definition getConstMask16 :: "('p::len) Span \<Rightarrow> error + 32 word" where
  "getConstMask16 s = (if isConst s then Inr (ucast (m_mask_uint s)) else Inl AssertionFailure)"

definition isConstMaskOpaque16 :: "('p::len) Span \<Rightarrow> error + bool" where
  "isConstMaskOpaque16 s =
     (if isConst s then Inr (m_mask_uint s = 0x10000) else Inl AssertionFailure)"

definition setConstMask16 :: "32 word \<Rightarrow> ('p::len) Span \<Rightarrow> error + 'p Span" where
  "setConstMask16 msk s =
     (if isConst s then Inr (s\<lparr>m_mask_uint := ucast msk\<rparr>) else Inl AssertionFailure)"

text \<open>
  The static helpers. \<open>advanceData\<close> has seven entries; an index past them reads beyond
  the table. The product is the 32-bit one of the machine.
\<close>

definition advanceData8 :: "32 word list" where
  "advanceData8 = [0, 1, 1, 2, 4, 4, 0]"

definition getMaskAdvance8 :: "32 word \<Rightarrow> 32 word \<Rightarrow> error + 32 word" where
  "getMaskAdvance8 t width =
     (if unat t < length advanceData8 then Inr (width * advanceData8 ! unat t)
      else Inl OutOfBounds)"

definition advanceData16 :: "32 word list" where
  "advanceData16 = [0, 1, 2, 4, 4, 8, 0]"

definition getMaskAdvance16 :: "32 word \<Rightarrow> 32 word \<Rightarrow> error + 32 word" where
  "getMaskAdvance16 t width =
     (if unat t < length advanceData16 then Inr (width * advanceData16 ! unat t)
      else Inl OutOfBounds)"

definition isConstMaskPointer :: "('p::len) word \<Rightarrow> bool" where
  "isConstMaskPointer msk \<longleftrightarrow> msk \<le> 0x100"

definition isVariantMaskPointer :: "('p::len) word \<Rightarrow> bool" where
  "isVariantMaskPointer msk \<longleftrightarrow> 0x100 < msk"

definition getConstMaskFromPointer :: "('p::len) word \<Rightarrow> 32 word" where
  "getConstMaskFromPointer msk = ucast msk"

definition getPointerFromConstMask :: "32 word \<Rightarrow> ('p::len) word" where
  "getPointerFromConstMask msk = ucast msk"

text \<open>Three spans of a 64-bit build, used to run the operations on concrete values.\<close>

definition const_span :: "64 Span" where
  "const_span = \<lparr>m_x0 = 0, m_type = 0, m_x1 = 5, m_mask_uint = 0x80, m_next = 0\<rparr>"

definition glyph_span :: "64 Span" where
  "glyph_span = \<lparr>m_x0 = 2, m_type = 1, m_x1 = 9, m_mask_uint = 0x7F0000001000, m_next = 0\<rparr>"

definition wide_span :: "64 Span" where
  "wide_span =
     \<lparr>m_x0 = 0, m_type = 0, m_x1 = 0x80000000, m_mask_uint = 0x100, m_next = 0\<rparr>"

section \<open>Compositing dispatch table (Fog/Graphics/RasterUtil.h)\<close>

text \<open>
  A function pointer is \<open>None\<close> for \<open>NULL\<close>, or the routine it points to. A routine is
  named by the implementation it belongs to (the source speaks of MMX and SSE2 versions
  that replace the portable ones), by the operator and the destination format of its table
  entry and by its slot. The three \<open>vspan\<close> members of \<open>RasterFuncs\<close> are arrays with
  one pointer per source pixel format.
\<close>

datatype impl = Portable | MMX | SSE2

datatype slot =
  Cspan | Cspan_a8 | Cspan_a8_const | Vspan nat | Vspan_a8 nat | Vspan_a8_const nat

datatype routine = Routine impl nat nat slot

record RasterFuncs =
  cspan :: "routine option"
  cspan_a8 :: "routine option"
  cspan_a8_const :: "routine option"
  vspan :: "routine option list"
  vspan_a8 :: "routine option list"
  vspan_a8_const :: "routine option list"

text \<open>Of \<open>FunctionMap\<close> only the member \<open>raster[COMPOSITE_COUNT][PIXEL_FORMAT_COUNT]\<close>.\<close>

record FunctionMap =
  raster :: "RasterFuncs list list"

text \<open>
  The header only declares \<open>getRasterOps\<close> and the pointer \<open>functionMap\<close>: the code
  that fills the table and the body of the lookup are not part of the sources at hand, and
  neither are \<open>COMPOSITE_COUNT\<close> and \<open>PIXEL_FORMAT_COUNT\<close>, which are the parameters
  \<open>ops\<close> and \<open>fmts\<close> below. The definitions of this section that stand for that code
  say so.
\<close>

text \<open>
  Modelled from the spec: the portable baseline of one (format, operator) pair, a routine
  in each of the six slots.
\<close>

definition portable_funcs :: "nat \<Rightarrow> nat \<Rightarrow> nat \<Rightarrow> RasterFuncs" where
  "portable_funcs fmts op fmt =
     \<lparr>cspan = Some (Routine Portable op fmt Cspan),
      cspan_a8 = Some (Routine Portable op fmt Cspan_a8),
      cspan_a8_const = Some (Routine Portable op fmt Cspan_a8_const),
      vspan = map (\<lambda>src. Some (Routine Portable op fmt (Vspan src))) [0..<fmts],
      vspan_a8 = map (\<lambda>src. Some (Routine Portable op fmt (Vspan_a8 src))) [0..<fmts],
      vspan_a8_const =
        map (\<lambda>src. Some (Routine Portable op fmt (Vspan_a8_const src))) [0..<fmts]\<rparr>"

text \<open>
  Modelled from the spec: the first step of the population installs the portable baseline
  for every (format, operator) pair.
\<close>

definition init_portable :: "nat \<Rightarrow> nat \<Rightarrow> FunctionMap" where
  "init_portable ops fmts =
     \<lparr>raster = map (\<lambda>op. map (\<lambda>fmt. portable_funcs fmts op fmt) [0..<fmts]) [0..<ops]\<rparr>"

text \<open>
  Modelled from the spec: an assignment of a routine to one slot of a bundle, as the
  installation of a faster variant makes it.
\<close>

fun set_slot :: "slot \<Rightarrow> routine \<Rightarrow> RasterFuncs \<Rightarrow> RasterFuncs" where
  "set_slot Cspan f b = b\<lparr>cspan := Some f\<rparr>"
| "set_slot Cspan_a8 f b = b\<lparr>cspan_a8 := Some f\<rparr>"
| "set_slot Cspan_a8_const f b = b\<lparr>cspan_a8_const := Some f\<rparr>"
| "set_slot (Vspan src) f b =
     (if src < length (vspan b) then b\<lparr>vspan := (vspan b)[src := Some f]\<rparr> else b)"
| "set_slot (Vspan_a8 src) f b =
     (if src < length (vspan_a8 b) then b\<lparr>vspan_a8 := (vspan_a8 b)[src := Some f]\<rparr> else b)"
| "set_slot (Vspan_a8_const src) f b =
     (if src < length (vspan_a8_const b)
      then b\<lparr>vspan_a8_const := (vspan_a8_const b)[src := Some f]\<rparr> else b)"

text \<open>
  Modelled from the spec: an implementation replaces the routine of one slot of the entry
  of a declared pair by its own.
\<close>

definition install :: "impl \<Rightarrow> nat \<Rightarrow> nat \<Rightarrow> slot \<Rightarrow> FunctionMap \<Rightarrow> FunctionMap" where
  "install i op fmt sl fm =
     (if op < length (raster fm) \<and> fmt < length (raster fm ! op)
      then fm\<lparr>raster := (raster fm)
             [op := (raster fm ! op)
                [fmt := set_slot sl (Routine i op fmt sl) (raster fm ! op ! fmt)]]\<rparr>
      else fm)"

text \<open>
  Modelled from the spec: the capability probe. A replacement is made only when the
  processor supports the implementation that offers it (\<open>caps\<close>).
\<close>

definition apply_override ::
  "impl list \<Rightarrow> impl \<times> nat \<times> nat \<times> slot \<Rightarrow> FunctionMap \<Rightarrow> FunctionMap" where
  "apply_override caps ov fm =
     (case ov of (i, op, fmt, sl) \<Rightarrow> if i \<in> set caps then install i op fmt sl fm else fm)"

text \<open>
  Modelled from the spec: initialization is the baseline for every pair first, then the
  replacements that the faster implementations offer, in their order.
\<close>

definition init ::
  "nat \<Rightarrow> nat \<Rightarrow> impl list \<Rightarrow> (impl \<times> nat \<times> nat \<times> slot) list \<Rightarrow> FunctionMap" where
  "init ops fmts caps overrides = fold (apply_override caps) overrides (init_portable ops fmts)"

text \<open>
  Modelled from the spec: the lookup returns the entry \<open>raster[op][format]\<close> of a declared
  pair; it has no entry for a pair outside the table.
\<close>

definition getRasterOps :: "FunctionMap \<Rightarrow> int \<Rightarrow> int \<Rightarrow> RasterFuncs option" where
  "getRasterOps fm format op =
     (if 0 \<le> op \<and> nat op < length (raster fm) \<and> 0 \<le> format
         \<and> nat format < length (raster fm ! nat op)
      then Some (raster fm ! nat op ! nat format) else None)"

text \<open>A bundle whose six slots are all set, the arrays in every one of their entries.\<close>

definition fully_populated :: "nat \<Rightarrow> RasterFuncs \<Rightarrow> bool" where
  "fully_populated fmts b \<longleftrightarrow>
     cspan b \<noteq> None \<and> cspan_a8 b \<noteq> None \<and> cspan_a8_const b \<noteq> None
     \<and> length (vspan b) = fmts \<and> list_all (\<lambda>f. f \<noteq> None) (vspan b)
     \<and> length (vspan_a8 b) = fmts \<and> list_all (\<lambda>f. f \<noteq> None) (vspan_a8 b)
     \<and> length (vspan_a8_const b) = fmts \<and> list_all (\<lambda>f. f \<noteq> None) (vspan_a8_const b)"

definition table_full :: "nat \<Rightarrow> nat \<Rightarrow> FunctionMap \<Rightarrow> bool" where
  "table_full ops fmts fm \<longleftrightarrow>
     length (raster fm) = ops
     \<and> list_all (\<lambda>row. length row = fmts \<and> list_all (fully_populated fmts) row) (raster fm)"

section \<open>Pattern context (Fog/Graphics/RasterUtil.h)\<close>

text \<open>
  The union of the per-kind data is a datatype; the four gradient structs share the
  members \<open>colors\<close>, \<open>colorsAlloc\<close> and \<open>colorsLength\<close> and are one constructor.
  What a context owns is what the comments of the struct say must be released with it: the
  \<open>texture\<close> image of a texture context and the dynamically allocated \<open>colors\<close> array
  (the ramp table) of a gradient. The transform \<open>m[6]\<close> and the geometry coefficients
  play no part in the lifetime and are left out; the function pointers \<open>fetch\<close> and
  \<open>destroy\<close> are bound once, and \<open>destroy\<close> is the function of that name below.
\<close>

datatype payload =
  Solid "32 word"
  | Texture nat
  | Scale
  | GenericGradient nat nat nat

datatype resource = TextureImage nat | RampTable nat

fun owned :: "payload \<Rightarrow> resource set" where
  "owned (Solid prgb) = {}"
| "owned (Texture texture) = {TextureImage texture}"
| "owned Scale = {}"
| "owned (GenericGradient colors colorsAlloc colorsLength) = {RampTable colors}"

record PatternContext =
  refCount :: nat
  initialized :: bool
  format :: int
  depth :: int
  isTransformed :: bool
  payload :: payload

text \<open>
  The context together with the resources that are allocated and a count of the calls of
  its \<open>destroy\<close> function.
\<close>

record pattern_state =
  ctx :: PatternContext
  allocated :: "resource set"
  destroy_calls :: nat

text \<open>
  The header has the struct only: the \<open>destroy\<close> functions and the code that takes and
  drops references are not part of the sources at hand. The three definitions that stand
  for that code say so.
\<close>

text \<open>
  Modelled from the spec: \<open>destroy\<close> is callable only on an initialized context; it frees
  the ramp table or the texture that the context owns.
\<close>

definition destroy :: "pattern_state \<Rightarrow> error + pattern_state" where
  "destroy st =
     (if initialized (ctx st)
      then Inr (st\<lparr>ctx := (ctx st)\<lparr>initialized := False\<rparr>,
                   allocated := allocated st - owned (payload (ctx st)),
                   destroy_calls := Suc (destroy_calls st)\<rparr>)
      else Inl AssertionFailure)"

text \<open>
  Modelled from the spec: a holder increments the reference count before it stores another
  handle. Using a context that is not initialized, or that nobody holds, is a contract
  violation.
\<close>

definition acquire :: "pattern_state \<Rightarrow> error + pattern_state" where
  "acquire st =
     (if initialized (ctx st) \<and> 0 < refCount (ctx st)
      then Inr (st\<lparr>ctx := (ctx st)\<lparr>refCount := Suc (refCount (ctx st))\<rparr>\<rparr>)
      else Inl AssertionFailure)"

text \<open>
  Modelled from the spec: a release decrements the reference count and calls \<open>destroy\<close>
  when the count was decreased to zero.
\<close>

definition release :: "pattern_state \<Rightarrow> error + pattern_state" where
  "release st =
     (if initialized (ctx st) \<and> 0 < refCount (ctx st)
      then (let st' = st\<lparr>ctx := (ctx st)\<lparr>refCount := refCount (ctx st) - 1\<rparr>\<rparr>
            in if refCount (ctx st') = 0 then destroy st' else Inr st')
      else Inl AssertionFailure)"

text \<open>Sequences of acquisitions and releases, run until the first contract violation.\<close>

datatype holder_op = Acquire | Release

fun step :: "holder_op \<Rightarrow> pattern_state \<Rightarrow> error + pattern_state" where
  "step Acquire st = acquire st"
| "step Release st = release st"

fun run :: "holder_op list \<Rightarrow> pattern_state \<Rightarrow> error + pattern_state" where
  "run [] st = Inr st"
| "run (x # xs) st = (case step x st of Inl e \<Rightarrow> Inl e | Inr st' \<Rightarrow> run xs st')"

text \<open>A linear gradient context with one holder, its ramp table allocated.\<close>

definition gradient_state :: pattern_state where
  "gradient_state =
     \<lparr>ctx = \<lparr>refCount = 1, initialized = True, format = 0, depth = 32, isTransformed = False,
             payload = GenericGradient 4096 256 256\<rparr>,
      allocated = {RampTable 4096, TextureImage 7},
      destroy_calls = 0\<rparr>"

section \<open>Reading 32-bit and 29-bit values\<close>

lemma int_mod_once: "m \<le> k \<Longrightarrow> k < 2 * m \<Longrightarrow> (k :: int) mod m = k - m"
proof -
  assume a: "m \<le> k" "k < 2 * m"
  then have "(k - m) mod m = k - m"
    by (intro mod_pos_pos_trivial) simp_all
  then show ?thesis
    by simp
qed

lemma sint_32_cases:
  "sint (x :: 32 word) = (if uint x < 2 ^ 31 then uint x else uint x - 2 ^ 32)"
proof -
  have b: "0 \<le> uint x" "uint x < 2 ^ 32"
    using uint_bounded [of x] by simp_all
  have "sint x = (uint x + 2 ^ 31) mod 2 ^ 32 - 2 ^ 31"
    by (simp add: sint_uint signed_take_bit_eq_take_bit_shift take_bit_eq_mod)
  moreover have "(uint x + 2 ^ 31) mod 2 ^ 32 =
      (if uint x < 2 ^ 31 then uint x + 2 ^ 31 else uint x - 2 ^ 31)"
  proof (cases "uint x < 2 ^ 31")
    case True
    with b show ?thesis by (simp add: mod_pos_pos_trivial)
  next
    case False
    with b have "(uint x + 2 ^ 31) mod 2 ^ 32 = uint x + 2 ^ 31 - 2 ^ 32"
      by (intro int_mod_once) simp_all
    with False show ?thesis by simp
  qed
  ultimately show ?thesis
    by simp
qed

lemma uint_32_bound: "uint (x :: 32 word) < 4294967296"
  using uint_bounded [of x] by simp

lemma sint_nonneg_32: "0 \<le> sint (x :: 32 word) \<longleftrightarrow> uint x < 2 ^ 31"
proof (cases "uint x < 2 ^ 31")
  case True
  then show ?thesis
    by (simp add: sint_32_cases)
next
  case False
  have "\<not> 4294967296 \<le> uint x"
    using uint_32_bound [of x] by linarith
  with False show ?thesis
    by (simp add: sint_32_cases)
qed

lemma sint_eq_uint_32:
  assumes "0 \<le> sint (x :: 32 word)"
  shows "sint x = uint x"
proof -
  from assms have "uint x < 2 ^ 31"
    by (simp only: sint_nonneg_32)
  then show ?thesis
    by (simp add: sint_32_cases)
qed

lemma uint_ucast_29_32: "uint (ucast (w :: 29 word) :: 32 word) = uint w"
  by (simp add: uint_up_ucast is_up)

lemma uint_ucast_32_29: "uint (ucast (x :: 32 word) :: 29 word) = uint x mod 2 ^ 29"
  by (simp add: unsigned_ucast_eq take_bit_eq_mod)

lemma uint_29_bound: "uint (w :: 29 word) < 2 ^ 29"
  using uint_bounded [of w] by simp

lemma sint_ucast_29_32: "sint (ucast (w :: 29 word) :: 32 word) = uint w"
proof -
  have "uint (ucast w :: 32 word) < 2 ^ 31"
    using uint_29_bound [of w] by (simp add: uint_ucast_29_32)
  then show ?thesis
    by (simp add: sint_32_cases uint_ucast_29_32)
qed

lemma sint_getX0: "sint (getX0 s) = uint (m_x0 s)"
  by (simp add: getX0_def sint_ucast_29_32)

lemma getX0_range: "0 \<le> sint (getX0 s) \<and> sint (getX0 s) < 2 ^ 29"
  using uint_29_bound [of "m_x0 s"] by (simp add: sint_getX0)

lemma stored_x0:
  assumes "0 \<le> sint (x0 :: 32 word)"
  shows "sint (getX0 (s\<lparr>m_x0 := ucast x0\<rparr>)) = sint x0 mod 2 ^ 29"
proof -
  have "sint x0 = uint x0"
    using assms by (rule sint_eq_uint_32)
  then show ?thesis
    by (simp add: sint_getX0 uint_ucast_32_29)
qed

section \<open>Properties\<close>

text \<open>
  C9. The start is kept in 29 bits: \<open>setX0\<close> accepts every non-negative \<open>int\<close> without an
  assertion, and \<open>getX0\<close> afterwards returns the argument modulo \<open>2 ^ 29\<close>. So the
  round trip gives the argument back exactly when it is below \<open>2 ^ 29\<close>, while the end
  coordinate keeps all 32 bits.
\<close>

theorem setX0_getX0_29bit:
  "0 \<le> sint x0 \<Longrightarrow>
     (\<exists>s'. setX0 x0 s = Inr s'
        \<and> sint (getX0 s') = sint x0 mod 2 ^ 29
        \<and> (sint (getX0 s') = sint x0 \<longleftrightarrow> sint x0 < 2 ^ 29)
        \<and> m_x1 s' = m_x1 s)
     \<and> (\<exists>s'. setX1 x0 s = Inr s' \<and> sint (getX1 s') = sint x0)"
proof -
  assume nn: "0 \<le> sint x0"
  let ?s' = "s\<lparr>m_x0 := ucast x0\<rparr>"
  have get: "sint (getX0 ?s') = sint x0 mod 2 ^ 29"
    using nn by (rule stored_x0)
  have "(sint x0 mod 2 ^ 29 = sint x0) \<longleftrightarrow> sint x0 < 2 ^ 29"
  proof
    assume "sint x0 mod 2 ^ 29 = sint x0"
    moreover have "sint x0 mod 2 ^ 29 < 2 ^ 29"
      by simp
    ultimately show "sint x0 < 2 ^ 29"
      by simp
  next
    assume "sint x0 < 2 ^ 29"
    with nn show "sint x0 mod 2 ^ 29 = sint x0"
      by (simp add: mod_pos_pos_trivial)
  qed
  with get have "sint (getX0 ?s') = sint x0 \<longleftrightarrow> sint x0 < 2 ^ 29"
    by simp
  with get nn show ?thesis
    by (simp add: setX0_def setX1_def getX1_def)
qed

theorem setX0_getX0_29bit_witness:
  "(\<exists>s'. setX0 0x20000005 const_span = Inr s' \<and> sint (getX0 s') = 5)
   \<and> (\<exists>s'. setX0 7 const_span = Inr s' \<and> sint (getX0 s') = 7)"
proof -
  have big: "0 \<le> sint (0x20000005 :: 32 word)" and small: "0 \<le> sint (7 :: 32 word)"
    by simp_all
  from setX0_getX0_29bit [OF big, of const_span]
  obtain s1 where "setX0 0x20000005 const_span = Inr s1"
    and "sint (getX0 s1) = sint (0x20000005 :: 32 word) mod 2 ^ 29"
    by blast
  moreover from setX0_getX0_29bit [OF small, of const_span]
  obtain s2 where "setX0 7 const_span = Inr s2"
    and "sint (getX0 s2) = sint (7 :: 32 word) mod 2 ^ 29"
    by blast
  ultimately show ?thesis
    by simp
qed

text \<open>
  C5. The claim as stated fails for a span whose end does not fit a non-negative \<open>int\<close>:
  \<open>isValid\<close> compares the fields as unsigned values, while \<open>getLength\<close> returns the
  difference as an \<open>int\<close>. At \<open>_x0 = 0\<close>, \<open>_x1 = 0x80000000\<close> the span is valid and
  its length is negative.
\<close>

theorem getLength_positive_counterexample:
  "isValid wide_span \<and> \<not> 0 < sint (getLength wide_span)"
  by (simp add: wide_span_def isValid_def getLength_def)

text \<open>
  C5, amended. For every valid span whose end is a non-negative \<open>int\<close> (what every
  setter of the end asserts), \<open>getLength\<close> is \<open>getX1 - getX0\<close> as integers and is
  strictly positive. On the 32 bits of the machine \<open>getLength\<close> equals
  \<open>getX1 - getX0\<close> for every span.
\<close>

theorem getLength_valid:
  "getLength s = getX1 s - getX0 s
   \<and> (isValid s \<and> 0 \<le> sint (getX1 s) \<longrightarrow>
        sint (getLength s) = sint (getX1 s) - sint (getX0 s) \<and> 0 < sint (getLength s))"
proof -
  have word: "getLength s = getX1 s - getX0 s"
    by (simp add: getLength_def getX1_def getX0_def)
  have "sint (getLength s) = sint (getX1 s) - sint (getX0 s) \<and> 0 < sint (getLength s)"
    if v: "isValid s" and nn: "0 \<le> sint (getX1 s)"
  proof -
    let ?a = "uint (m_x0 s)" and ?b = "uint (m_x1 s)"
    have nn': "0 \<le> sint (m_x1 s)"
      using nn by (simp add: getX1_def)
    have b: "sint (getX1 s) = ?b"
      using sint_eq_uint_32 [OF nn'] by (simp add: getX1_def)
    have b31: "?b < 2 ^ 31"
      using nn' by (simp only: sint_nonneg_32)
    have lt: "?a < ?b"
      using v by (simp add: isValid_def word_less_def uint_ucast_29_32)
    have "uint (m_x1 s - ucast (m_x0 s)) = ?b - ?a"
      using lt uint_sub_lem [of "ucast (m_x0 s) :: 32 word" "m_x1 s"]
      by (simp add: uint_ucast_29_32)
    then have len: "uint (getLength s) = ?b - ?a"
      by (simp add: getLength_def)
    have "0 \<le> ?a"
      by simp
    with b31 len have "uint (getLength s) < 2 ^ 31"
      by linarith
    then have "sint (getLength s) = ?b - ?a"
      using len by (simp add: sint_32_cases)
    with b lt show ?thesis
      by (simp add: sint_getX0)
  qed
  with word show ?thesis
    by blast
qed

theorem getLength_valid_witness:
  "isValid glyph_span \<and> 0 \<le> sint (getX1 glyph_span)
   \<and> sint (getLength glyph_span) = sint (getX1 glyph_span) - sint (getX0 glyph_span)
   \<and> 0 < sint (getLength glyph_span)"
proof -
  have h: "isValid glyph_span \<and> 0 \<le> sint (getX1 glyph_span)"
    by (simp add: glyph_span_def isValid_def getX1_def)
  with getLength_valid [of glyph_span] show ?thesis
    by blast
qed

text \<open>
  C3. The claim as stated fails for \<open>setX0\<close> and \<open>setX1\<close>: each asserts only that its
  own argument is non-negative. \<open>setX0(10)\<close> on the span [0, 5) passes the assertion and
  leaves the span [10, 5); \<open>setX1(2)\<close> on the span [2, 9) leaves [2, 2).
\<close>

theorem setX0_degenerate_counterexample:
  "setX0 10 const_span = Inr (const_span\<lparr>m_x0 := 10\<rparr>)
   \<and> \<not> sint (getX0 (const_span\<lparr>m_x0 := 10\<rparr>)) < sint (getX1 (const_span\<lparr>m_x0 := 10\<rparr>))
   \<and> setX1 2 glyph_span = Inr (glyph_span\<lparr>m_x1 := 2\<rparr>)
   \<and> \<not> sint (getX0 (glyph_span\<lparr>m_x1 := 2\<rparr>)) < sint (getX1 (glyph_span\<lparr>m_x1 := 2\<rparr>))"
  by (simp add: setX0_def setX1_def const_span_def glyph_span_def getX0_def getX1_def)

text \<open>
  C3, amended. \<open>setPosition\<close> and \<open>setPositionAndType\<close> reject by assertion every pair
  with \<open>x0 \<ge> x1\<close> and every negative start, accept every pair with \<open>0 \<le> x0 < x1\<close>,
  and the span they leave has \<open>x0 < x1\<close>. \<open>setX0\<close> and \<open>setX1\<close> accept every
  non-negative argument, whatever the other coordinate is.
\<close>

theorem setPosition_ordered:
  "(\<not> sint x0 < sint x1 \<longrightarrow>
      setPosition x0 x1 s = Inl AssertionFailure
      \<and> setPositionAndType x0 x1 t s = Inl AssertionFailure)
   \<and> (sint x0 < 0 \<longrightarrow>
      setPosition x0 x1 s = Inl AssertionFailure
      \<and> setPositionAndType x0 x1 t s = Inl AssertionFailure)
   \<and> (0 \<le> sint x0 \<and> sint x0 < sint x1 \<longrightarrow>
      (\<exists>s'. setPosition x0 x1 s = Inr s' \<and> sint (getX0 s') < sint (getX1 s')
          \<and> isValid s' = (m_mask_uint s \<noteq> 0))
      \<and> (\<exists>s'. setPositionAndType x0 x1 t s = Inr s' \<and> sint (getX0 s') < sint (getX1 s')))
   \<and> (setPosition x0 x1 s = Inr s' \<longrightarrow> sint (getX0 s') < sint (getX1 s'))
   \<and> (setPositionAndType x0 x1 t s = Inr s' \<longrightarrow> sint (getX0 s') < sint (getX1 s'))
   \<and> (0 \<le> sint x \<longrightarrow>
      setX0 x s = Inr (s\<lparr>m_x0 := ucast x\<rparr>) \<and> setX1 x s = Inr (s\<lparr>m_x1 := x\<rparr>))"
proof -
  have rej: "setPosition x0 x1 s = Inl AssertionFailure
      \<and> setPositionAndType x0 x1 t s = Inl AssertionFailure" if "\<not> sint x0 < sint x1"
    using that by (simp add: setPosition_def setPositionAndType_def)
  have neg: "setPosition x0 x1 s = Inl AssertionFailure
      \<and> setPositionAndType x0 x1 t s = Inl AssertionFailure" if "sint x0 < 0"
    using that by (simp add: setPosition_def setPositionAndType_def)
  have ord: "sint (getX0 (r\<lparr>m_x0 := ucast x0, m_x1 := x1\<rparr>))
      < sint (getX1 (r\<lparr>m_x0 := ucast x0, m_x1 := x1\<rparr>))"
    and val: "(ucast (ucast x0 :: 29 word) :: 32 word) < x1"
    if nn: "0 \<le> sint x0" and lt: "sint x0 < sint x1" for r :: "'a Span"
  proof -
    have "sint x0 mod 2 ^ 29 \<le> sint x0"
      using nn by (rule zmod_le_nonneg_dividend)
    moreover have "sint (getX0 (r\<lparr>m_x0 := ucast x0, m_x1 := x1\<rparr>)) = sint x0 mod 2 ^ 29"
      using stored_x0 [OF nn, of "r\<lparr>m_x1 := x1\<rparr>"] by (simp add: getX0_def)
    ultimately show "sint (getX0 (r\<lparr>m_x0 := ucast x0, m_x1 := x1\<rparr>))
      < sint (getX1 (r\<lparr>m_x0 := ucast x0, m_x1 := x1\<rparr>))"
      using lt by (simp add: getX1_def)
    have "0 \<le> sint x1"
      using nn lt by linarith
    then have "sint x1 = uint x1"
      by (rule sint_eq_uint_32)
    moreover have "sint x0 = uint x0"
      using nn by (rule sint_eq_uint_32)
    moreover have "uint x0 mod 2 ^ 29 \<le> uint x0"
      by (rule zmod_le_nonneg_dividend) simp
    ultimately show "(ucast (ucast x0 :: 29 word) :: 32 word) < x1"
      using lt by (simp add: word_less_def uint_ucast_29_32 uint_ucast_32_29)
  qed
  have acc: "(\<exists>s'. setPosition x0 x1 s = Inr s' \<and> sint (getX0 s') < sint (getX1 s')
        \<and> isValid s' = (m_mask_uint s \<noteq> 0))
      \<and> (\<exists>s'. setPositionAndType x0 x1 t s = Inr s' \<and> sint (getX0 s') < sint (getX1 s'))"
    if nn: "0 \<le> sint x0" and lt: "sint x0 < sint x1"
  proof -
    have "0 \<le> sint x1"
      using nn lt by linarith
    moreover have "sint (getX0 (s\<lparr>m_x0 := ucast x0, m_x1 := x1, m_type := ucast t\<rparr>))
      < sint (getX1 (s\<lparr>m_x0 := ucast x0, m_x1 := x1, m_type := ucast t\<rparr>))"
      using ord [OF nn lt, of "s\<lparr>m_type := ucast t\<rparr>"] by (simp add: getX0_def getX1_def)
    ultimately show ?thesis
      using nn lt ord [OF nn lt, of s] val [OF nn lt]
      by (simp add: setPosition_def setPositionAndType_def isValid_def)
  qed
  have p1: "sint (getX0 s') < sint (getX1 s')" if "setPosition x0 x1 s = Inr s'"
    using that ord [of s] by (auto simp: setPosition_def split: if_splits)
  have p2: "sint (getX0 s') < sint (getX1 s')" if "setPositionAndType x0 x1 t s = Inr s'"
    using that ord [of "s\<lparr>m_type := ucast t\<rparr>"]
    by (auto simp: setPositionAndType_def getX0_def getX1_def split: if_splits)
  have single: "setX0 x s = Inr (s\<lparr>m_x0 := ucast x\<rparr>) \<and> setX1 x s = Inr (s\<lparr>m_x1 := x\<rparr>)"
    if "0 \<le> sint x"
    using that by (simp add: setX0_def setX1_def)
  from rej neg acc p1 p2 single show ?thesis
    by blast
qed

theorem setPosition_ordered_witness:
  "setPosition 8 3 const_span = Inl AssertionFailure
   \<and> setPositionAndType 8 8 1 const_span = Inl AssertionFailure
   \<and> (\<exists>s'. setPosition 3 8 const_span = Inr s' \<and> sint (getX0 s') < sint (getX1 s'))
   \<and> setX0 10 const_span = Inr (const_span\<lparr>m_x0 := ucast (10 :: 32 word)\<rparr>)"
proof -
  have "\<not> sint (8 :: 32 word) < sint (3 :: 32 word)"
    by simp
  with setPosition_ordered [of 8 3 const_span]
  have a: "setPosition 8 3 const_span = Inl AssertionFailure"
    by blast
  have "\<not> sint (8 :: 32 word) < sint (8 :: 32 word)"
    by simp
  with setPosition_ordered [of 8 8 const_span 1]
  have b: "setPositionAndType 8 8 1 const_span = Inl AssertionFailure"
    by blast
  have "0 \<le> sint (3 :: 32 word) \<and> sint (3 :: 32 word) < sint (8 :: 32 word)"
    by simp
  with setPosition_ordered [of 3 8 const_span]
  have c: "\<exists>s'. setPosition 3 8 const_span = Inr s' \<and> sint (getX0 s') < sint (getX1 s')"
    by blast
  have "0 \<le> sint (10 :: 32 word)"
    by simp
  with setPosition_ordered [of _ _ const_span _ _ 10]
  have d: "setX0 10 const_span = Inr (const_span\<lparr>m_x0 := ucast (10 :: 32 word)\<rparr>)"
    by blast
  from a b c d show ?thesis
    by blast
qed

section \<open>Mask kinds\<close>

lemma isVariant_iff_not_isConst: "isVariant s \<longleftrightarrow> \<not> isConst s"
  by (auto simp: isConst_def isVariant_def)

text \<open>
  C7. A constant-only accessor (\<open>getConstMask\<close>, \<open>setConstMask\<close>, \<open>isConstMaskOpaque\<close>, of
  \<open>Span8\<close> and of \<open>Span16\<close>) on a variant span, and a variant-only accessor
  (\<open>getVariantMask\<close>, \<open>setVariantMask\<close>) on a constant span, fail their assertion; on
  a span of the matching kind the assertion holds and the accessor does its work.
\<close>

theorem mask_accessor_kind_guard:
  "(isVariant s \<longrightarrow>
      getConstMask8 s = Inl AssertionFailure \<and> setConstMask8 m s = Inl AssertionFailure
      \<and> isConstMaskOpaque8 s = Inl AssertionFailure
      \<and> getConstMask16 s = Inl AssertionFailure \<and> setConstMask16 m s = Inl AssertionFailure
      \<and> isConstMaskOpaque16 s = Inl AssertionFailure)
   \<and> (isConst s \<longrightarrow>
      getVariantMask s = Inl AssertionFailure \<and> setVariantMask p s = Inl AssertionFailure)
   \<and> (isConst s \<longrightarrow>
      getConstMask8 s = Inr (ucast (m_mask_uint s))
      \<and> setConstMask8 m s = Inr (s\<lparr>m_mask_uint := ucast m\<rparr>)
      \<and> getConstMask16 s = Inr (ucast (m_mask_uint s))
      \<and> setConstMask16 m s = Inr (s\<lparr>m_mask_uint := ucast m\<rparr>)
      \<and> (\<exists>b. isConstMaskOpaque8 s = Inr b) \<and> (\<exists>b. isConstMaskOpaque16 s = Inr b))
   \<and> (isVariant s \<longrightarrow>
      getVariantMask s = Inr (m_mask_uint s)
      \<and> setVariantMask p s = Inr (s\<lparr>m_mask_uint := p\<rparr>))"
  by (simp add: isVariant_iff_not_isConst getConstMask8_def setConstMask8_def
      isConstMaskOpaque8_def getConstMask16_def setConstMask16_def isConstMaskOpaque16_def
      getVariantMask_def setVariantMask_def)

theorem mask_accessor_kind_guard_witness:
  "getConstMask8 glyph_span = Inl AssertionFailure
   \<and> setConstMask16 0x10000 glyph_span = Inl AssertionFailure
   \<and> getVariantMask const_span = Inl AssertionFailure
   \<and> getConstMask8 const_span = Inr (ucast (m_mask_uint const_span))
   \<and> getVariantMask glyph_span = Inr (m_mask_uint glyph_span)"
proof -
  have v: "isVariant glyph_span" and c: "isConst const_span"
    by (simp_all add: isVariant_def isConst_def glyph_span_def const_span_def
        SPAN_V_BEGIN_def SPAN_A8_GLYPH_def)
  from v mask_accessor_kind_guard [of glyph_span "0x10000"]
  have "getConstMask8 glyph_span = Inl AssertionFailure"
    and "setConstMask16 0x10000 glyph_span = Inl AssertionFailure"
    and "getVariantMask glyph_span = Inr (m_mask_uint glyph_span)"
    by blast+
  moreover from c mask_accessor_kind_guard [of const_span]
  have "getVariantMask const_span = Inl AssertionFailure"
    and "getConstMask8 const_span = Inr (ucast (m_mask_uint const_span))"
    by blast+
  ultimately show ?thesis
    by blast
qed

section \<open>Constant masks in a pointer-sized field\<close>

lemma pow32_le_ptr: "32 \<le> LENGTH('p::len) \<Longrightarrow> (2 :: int) ^ 32 \<le> 2 ^ LENGTH('p)"
  by (rule power_increasing) simp_all

lemma uint_small_ptr:
  assumes "32 \<le> LENGTH('p::len)" and "0 \<le> k" and "k < 2 ^ 32"
  shows "uint (word_of_int k :: 'p word) = k"
proof -
  have "k < 2 ^ LENGTH('p)"
    using pow32_le_ptr [OF assms(1)] assms(3) by linarith
  with assms(2) show ?thesis
    by (simp add: uint_word_of_int mod_pos_pos_trivial)
qed

lemma uint_ucast_32_ptr:
  "32 \<le> LENGTH('p::len) \<Longrightarrow> uint (ucast (m :: 32 word) :: 'p word) = uint m"
  by (simp add: uint_up_ucast is_up)

lemma ucast_ptr_roundtrip:
  "32 \<le> LENGTH('p::len) \<Longrightarrow> ucast (ucast (m :: 32 word) :: 'p word) = m"
  by (simp add: ucast_up_ucast_id is_up)

lemma ucast_ptr_eq_iff:
  assumes "32 \<le> LENGTH('p::len)" and "0 \<le> k" and "k < 2 ^ 32"
  shows "(ucast (m :: 32 word) :: 'p word) = word_of_int k \<longleftrightarrow> m = word_of_int k"
proof -
  have "(ucast m :: 'p word) = word_of_int k
      \<longleftrightarrow> uint (ucast m :: 'p word) = uint (word_of_int k :: 'p word)"
    by (simp add: word_uint_eq_iff)
  also have "\<dots> \<longleftrightarrow> uint m = k"
    using assms by (simp add: uint_small_ptr uint_ucast_32_ptr)
  also have "\<dots> \<longleftrightarrow> uint m = uint (word_of_int k :: 32 word)"
    using assms(2,3) by (simp add: uint_word_of_int mod_pos_pos_trivial)
  also have "\<dots> \<longleftrightarrow> m = word_of_int k"
    by (simp add: word_uint_eq_iff)
  finally show ?thesis .
qed

lemma ucast_ptr_eq_0x100:
  "32 \<le> LENGTH('p::len) \<Longrightarrow> (ucast (m :: 32 word) :: 'p word) = 0x100 \<longleftrightarrow> m = 0x100"
  using ucast_ptr_eq_iff [where 'p = 'p, of 256 m] by simp

lemma ucast_ptr_eq_0x10000:
  "32 \<le> LENGTH('p::len) \<Longrightarrow> (ucast (m :: 32 word) :: 'p word) = 0x10000 \<longleftrightarrow> m = 0x10000"
  using ucast_ptr_eq_iff [where 'p = 'p, of 65536 m] by simp

text \<open>
  C10. On a constant span \<open>isConstMaskOpaque\<close> is true exactly when the stored mask value
  is \<open>0x100\<close> (\<open>Span8\<close>) or \<open>0x10000\<close> (\<open>Span16\<close>): after \<open>setConstMask(m)\<close> the
  span reads back \<open>m\<close> and is opaque exactly when \<open>m\<close> is that value, so 255 and 65535
  are not opaque. Pointers have at least 32 bits.
\<close>

theorem isConstMaskOpaque_iff:
  fixes s :: "('p::len) Span"
  assumes "isConst s" and "32 \<le> LENGTH('p)"
  shows "isConstMaskOpaque8 s = Inr (m_mask_uint s = 0x100)
   \<and> isConstMaskOpaque16 s = Inr (m_mask_uint s = 0x10000)
   \<and> (isConstMaskOpaque8 s = Inr True \<longrightarrow> getConstMask8 s = Inr 0x100)
   \<and> (isConstMaskOpaque16 s = Inr True \<longrightarrow> getConstMask16 s = Inr 0x10000)
   \<and> (\<exists>s'. setConstMask8 m s = Inr s' \<and> getConstMask8 s' = Inr m
         \<and> isConstMaskOpaque8 s' = Inr (m = 0x100))
   \<and> (\<exists>s'. setConstMask16 m s = Inr s' \<and> getConstMask16 s' = Inr m
         \<and> isConstMaskOpaque16 s' = Inr (m = 0x10000))"
proof -
  have c': "isConst (s\<lparr>m_mask_uint := v\<rparr>)" for v
    using assms(1) by (simp add: isConst_def)
  have "ucast (ucast (0x100 :: 32 word) :: 'p word) = (0x100 :: 32 word)"
    and "ucast (ucast (0x10000 :: 32 word) :: 'p word) = (0x10000 :: 32 word)"
    using assms(2) by (rule ucast_ptr_roundtrip)+
  then have rd: "ucast (0x100 :: 'p word) = (0x100 :: 32 word)"
    "ucast (0x10000 :: 'p word) = (0x10000 :: 32 word)"
    by simp_all
  show ?thesis
    using assms c' rd
    by (auto simp: isConstMaskOpaque8_def isConstMaskOpaque16_def setConstMask8_def
        setConstMask16_def getConstMask8_def getConstMask16_def ucast_ptr_roundtrip
        ucast_ptr_eq_0x100 ucast_ptr_eq_0x10000)
qed

theorem isConstMaskOpaque_iff_witness:
  "(\<exists>s'. setConstMask8 0x100 const_span = Inr s' \<and> isConstMaskOpaque8 s' = Inr True)
   \<and> (\<exists>s'. setConstMask8 0xFF const_span = Inr s' \<and> isConstMaskOpaque8 s' = Inr False)
   \<and> (\<exists>s'. setConstMask16 0x10000 const_span = Inr s' \<and> isConstMaskOpaque16 s' = Inr True)
   \<and> (\<exists>s'. setConstMask16 0xFFFF const_span = Inr s' \<and> isConstMaskOpaque16 s' = Inr False)
   \<and> isConstMaskOpaque8 const_span = Inr False"
proof -
  have c: "isConst const_span" and l: "32 \<le> LENGTH(64)"
    by (simp_all add: isConst_def const_span_def SPAN_V_BEGIN_def SPAN_A8_GLYPH_def)
  from isConstMaskOpaque_iff [OF c l, of "0x100"]
  have "\<exists>s'. setConstMask8 0x100 const_span = Inr s' \<and> isConstMaskOpaque8 s' = Inr True"
    by auto
  moreover from isConstMaskOpaque_iff [OF c l, of "0xFF"]
  have "\<exists>s'. setConstMask8 0xFF const_span = Inr s' \<and> isConstMaskOpaque8 s' = Inr False"
    by auto
  moreover from isConstMaskOpaque_iff [OF c l, of "0x10000"]
  have "\<exists>s'. setConstMask16 0x10000 const_span = Inr s' \<and> isConstMaskOpaque16 s' = Inr True"
    by auto
  moreover from isConstMaskOpaque_iff [OF c l, of "0xFFFF"]
  have "\<exists>s'. setConstMask16 0xFFFF const_span = Inr s' \<and> isConstMaskOpaque16 s' = Inr False"
    by auto
  moreover from isConstMaskOpaque_iff [OF c l]
  have "isConstMaskOpaque8 const_span = Inr False"
    by (simp add: const_span_def)
  ultimately show ?thesis
    by blast
qed

text \<open>
  C6. A pointer-sized value is a constant mask when it is at most \<open>0x100\<close> and a variant
  mask pointer otherwise: exactly one of the two tests holds, and \<open>0x100\<close> itself is a
  constant. A constant mask \<open>m \<le> 0x100\<close> turned into a pointer is classified as a
  constant and read back unchanged. Pointers have at least 32 bits.
\<close>

theorem const_mask_pointer_encoding:
  fixes p :: "('p::len) word"
  assumes "32 \<le> LENGTH('p)"
  shows "(isConstMaskPointer p \<longleftrightarrow> \<not> isVariantMaskPointer p)
   \<and> isConstMaskPointer (0x100 :: 'p word) \<and> \<not> isVariantMaskPointer (0x100 :: 'p word)
   \<and> getConstMaskFromPointer (getPointerFromConstMask m :: 'p word) = m
   \<and> (m \<le> 0x100 \<longrightarrow> isConstMaskPointer (getPointerFromConstMask m :: 'p word))
   \<and> (0x100 < m \<longrightarrow> isVariantMaskPointer (getPointerFromConstMask m :: 'p word))"
proof -
  have part: "isConstMaskPointer p \<longleftrightarrow> \<not> isVariantMaskPointer p"
    by (auto simp: isConstMaskPointer_def isVariantMaskPointer_def)
  have bound: "isConstMaskPointer (0x100 :: 'p word) \<and> \<not> isVariantMaskPointer (0x100 :: 'p word)"
    by (simp add: isConstMaskPointer_def isVariantMaskPointer_def)
  have rt: "getConstMaskFromPointer (getPointerFromConstMask m :: 'p word) = m"
    using assms by (simp add: getConstMaskFromPointer_def getPointerFromConstMask_def
        ucast_ptr_roundtrip)
  have u: "take_bit LENGTH('p) (256 :: int) = 256"
    using uint_small_ptr [OF assms, of 256] by simp
  have le: "(ucast m :: 'p word) \<le> 0x100 \<longleftrightarrow> m \<le> 0x100"
    using assms by (simp add: word_le_def u uint_ucast_32_ptr)
  then have lt: "0x100 < (ucast m :: 'p word) \<longleftrightarrow> 0x100 < m"
    by (simp add: not_le [symmetric])
  from part bound rt le lt show ?thesis
    by (simp add: isConstMaskPointer_def isVariantMaskPointer_def getPointerFromConstMask_def)
qed

theorem const_mask_pointer_encoding_witness:
  "getConstMaskFromPointer (getPointerFromConstMask 0x100 :: 64 word) = 0x100
   \<and> isConstMaskPointer (getPointerFromConstMask 0x100 :: 64 word)
   \<and> isVariantMaskPointer (getPointerFromConstMask 0x101 :: 64 word)
   \<and> (isConstMaskPointer (0x7F0000001000 :: 64 word)
        \<longleftrightarrow> \<not> isVariantMaskPointer (0x7F0000001000 :: 64 word))"
proof -
  have l: "32 \<le> LENGTH(64)"
    by simp
  from const_mask_pointer_encoding [OF l, of "0x7F0000001000" "0x100"]
    const_mask_pointer_encoding [OF l, of "0x7F0000001000" "0x101"]
  show ?thesis
    by simp
qed

section \<open>Mask advance\<close>

lemma sint_mult_in_range:
  "- (2 ^ 31) \<le> sint (w :: 32 word) * sint k \<Longrightarrow> sint w * sint k < 2 ^ 31 \<Longrightarrow>
     sint (w * k) = sint w * sint k"
  by (simp add: sint_word_mult signed_take_bit_int_eq_self)

lemma span_type_cases:
  assumes "t < SPAN_COUNT"
  shows "t = SPAN_C \<or> t = SPAN_A8_GLYPH \<or> t = SPAN_AX_GLYPH \<or> t = SPAN_AX_EXTRA
    \<or> t = SPAN_ARGB32_GLYPH \<or> t = SPAN_ARGBXX_GLYPH"
proof -
  from assms have "unat t < 6"
    by (simp add: SPAN_COUNT_def word_less_nat_alt)
  then have "unat t = 0 \<or> unat t = 1 \<or> unat t = 2 \<or> unat t = 3 \<or> unat t = 4 \<or> unat t = 5"
    by linarith
  then have "t = 0 \<or> t = 1 \<or> t = 2 \<or> t = 3 \<or> t = 4 \<or> t = 5"
    by (auto simp: unat_eq_nat_uint word_uint_eq_iff nat_eq_iff nat_eq_iff2 simp del: nat_uint_eq)
  then show ?thesis
    by (simp add: SPAN_C_def SPAN_A8_GLYPH_def SPAN_AX_GLYPH_def SPAN_AX_EXTRA_def
        SPAN_ARGB32_GLYPH_def SPAN_ARGBXX_GLYPH_def)
qed

lemma getMaskAdvance8_table:
  "getMaskAdvance8 SPAN_C w = Inr 0"
  "getMaskAdvance8 SPAN_A8_GLYPH w = Inr (w * 1)"
  "getMaskAdvance8 SPAN_AX_GLYPH w = Inr (w * 1)"
  "getMaskAdvance8 SPAN_AX_EXTRA w = Inr (w * 2)"
  "getMaskAdvance8 SPAN_ARGB32_GLYPH w = Inr (w * 4)"
  "getMaskAdvance8 SPAN_ARGBXX_GLYPH w = Inr (w * 4)"
  by (simp_all add: getMaskAdvance8_def advanceData8_def SPAN_C_def SPAN_A8_GLYPH_def
      SPAN_AX_GLYPH_def SPAN_AX_EXTRA_def SPAN_ARGB32_GLYPH_def SPAN_ARGBXX_GLYPH_def)

lemma getMaskAdvance16_table:
  "getMaskAdvance16 SPAN_C w = Inr 0"
  "getMaskAdvance16 SPAN_A8_GLYPH w = Inr (w * 1)"
  "getMaskAdvance16 SPAN_AX_GLYPH w = Inr (w * 2)"
  "getMaskAdvance16 SPAN_AX_EXTRA w = Inr (w * 4)"
  "getMaskAdvance16 SPAN_ARGB32_GLYPH w = Inr (w * 4)"
  "getMaskAdvance16 SPAN_ARGBXX_GLYPH w = Inr (w * 8)"
  by (simp_all add: getMaskAdvance16_def advanceData16_def SPAN_C_def SPAN_A8_GLYPH_def
      SPAN_AX_GLYPH_def SPAN_AX_EXTRA_def SPAN_ARGB32_GLYPH_def SPAN_ARGBXX_GLYPH_def)

lemma span_types_distinct:
  "SPAN_C \<noteq> SPAN_AX_EXTRA" "SPAN_AX_EXTRA \<noteq> SPAN_C"
  "SPAN_A8_GLYPH \<noteq> SPAN_C" "SPAN_A8_GLYPH \<noteq> SPAN_AX_EXTRA"
  "SPAN_AX_GLYPH \<noteq> SPAN_C" "SPAN_AX_GLYPH \<noteq> SPAN_AX_EXTRA"
  "SPAN_ARGB32_GLYPH \<noteq> SPAN_C" "SPAN_ARGB32_GLYPH \<noteq> SPAN_AX_EXTRA"
  "SPAN_ARGBXX_GLYPH \<noteq> SPAN_C" "SPAN_ARGBXX_GLYPH \<noteq> SPAN_AX_EXTRA"
  by (simp_all add: SPAN_C_def SPAN_A8_GLYPH_def SPAN_AX_GLYPH_def SPAN_AX_EXTRA_def
      SPAN_ARGB32_GLYPH_def SPAN_ARGBXX_GLYPH_def)

lemma getMaskAdvance8_factor:
  assumes "t < SPAN_COUNT"
  shows "\<exists>k. (\<forall>w. getMaskAdvance8 t w = Inr (w * k)) \<and> 0 \<le> sint k \<and> sint k \<le> 4
    \<and> (t = SPAN_C \<longrightarrow> k = 0) \<and> (t = SPAN_AX_EXTRA \<longrightarrow> k = 2)"
  using span_type_cases [OF assms]
proof (elim disjE)
  assume "t = SPAN_C"
  then show ?thesis
    by (intro exI [of _ 0]) (simp add: getMaskAdvance8_table span_types_distinct)
next
  assume "t = SPAN_A8_GLYPH"
  then show ?thesis
    by (intro exI [of _ 1]) (simp add: getMaskAdvance8_table span_types_distinct)
next
  assume "t = SPAN_AX_GLYPH"
  then show ?thesis
    by (intro exI [of _ 1]) (simp add: getMaskAdvance8_table span_types_distinct)
next
  assume "t = SPAN_AX_EXTRA"
  then show ?thesis
    by (intro exI [of _ 2]) (simp add: getMaskAdvance8_table span_types_distinct)
next
  assume "t = SPAN_ARGB32_GLYPH"
  then show ?thesis
    by (intro exI [of _ 4]) (simp add: getMaskAdvance8_table span_types_distinct)
next
  assume "t = SPAN_ARGBXX_GLYPH"
  then show ?thesis
    by (intro exI [of _ 4]) (simp add: getMaskAdvance8_table span_types_distinct)
qed

lemma getMaskAdvance16_factor:
  assumes "t < SPAN_COUNT"
  shows "\<exists>k. (\<forall>w. getMaskAdvance16 t w = Inr (w * k)) \<and> 0 \<le> sint k \<and> sint k \<le> 8
    \<and> (t = SPAN_C \<longrightarrow> k = 0) \<and> (t = SPAN_AX_EXTRA \<longrightarrow> k = 4)"
  using span_type_cases [OF assms]
proof (elim disjE)
  assume "t = SPAN_C"
  then show ?thesis
    by (intro exI [of _ 0]) (simp add: getMaskAdvance16_table span_types_distinct)
next
  assume "t = SPAN_A8_GLYPH"
  then show ?thesis
    by (intro exI [of _ 1]) (simp add: getMaskAdvance16_table span_types_distinct)
next
  assume "t = SPAN_AX_GLYPH"
  then show ?thesis
    by (intro exI [of _ 2]) (simp add: getMaskAdvance16_table span_types_distinct)
next
  assume "t = SPAN_AX_EXTRA"
  then show ?thesis
    by (intro exI [of _ 4]) (simp add: getMaskAdvance16_table span_types_distinct)
next
  assume "t = SPAN_ARGB32_GLYPH"
  then show ?thesis
    by (intro exI [of _ 4]) (simp add: getMaskAdvance16_table span_types_distinct)
next
  assume "t = SPAN_ARGBXX_GLYPH"
  then show ?thesis
    by (intro exI [of _ 8]) (simp add: getMaskAdvance16_table span_types_distinct)
qed

text \<open>
  C1. For every span type of the enumeration \<open>getMaskAdvance\<close> is the width times a
  constant of the type, in both families: no table read is out of bounds, the product is
  the 32-bit one, and it is the product of the integers whenever that fits an \<open>int\<close>. The
  constant is 0 for \<open>SPAN_C\<close>, so the advance of a constant span is 0 at any width; for
  \<open>SPAN_AX_EXTRA\<close> it is 2 in \<open>Span8\<close> and 4 in \<open>Span16\<close>.
\<close>

theorem getMaskAdvance_linear:
  assumes "t < SPAN_COUNT"
  shows "\<exists>k8 k16.
     (\<forall>w. getMaskAdvance8 t w = Inr (w * k8)) \<and> (\<forall>w. getMaskAdvance16 t w = Inr (w * k16))
     \<and> (\<forall>w. - (2 ^ 31) \<le> sint w * sint k8 \<and> sint w * sint k8 < 2 ^ 31 \<longrightarrow>
           (\<exists>r. getMaskAdvance8 t w = Inr r \<and> sint r = sint w * sint k8))
     \<and> (\<forall>w. - (2 ^ 31) \<le> sint w * sint k16 \<and> sint w * sint k16 < 2 ^ 31 \<longrightarrow>
           (\<exists>r. getMaskAdvance16 t w = Inr r \<and> sint r = sint w * sint k16))
     \<and> 0 \<le> sint k8 \<and> sint k8 \<le> 4 \<and> 0 \<le> sint k16 \<and> sint k16 \<le> 8
     \<and> (t = SPAN_C \<longrightarrow> k8 = 0 \<and> k16 = 0)
     \<and> (t = SPAN_AX_EXTRA \<longrightarrow> k8 = 2 \<and> k16 = 4)"
proof -
  from getMaskAdvance8_factor [OF assms] obtain k8 where
    a8: "\<And>w. getMaskAdvance8 t w = Inr (w * k8)" and r8: "0 \<le> sint k8" "sint k8 \<le> 4"
    and s8: "t = SPAN_C \<longrightarrow> k8 = 0" "t = SPAN_AX_EXTRA \<longrightarrow> k8 = 2"
    by blast
  from getMaskAdvance16_factor [OF assms] obtain k16 where
    a16: "\<And>w. getMaskAdvance16 t w = Inr (w * k16)" and r16: "0 \<le> sint k16" "sint k16 \<le> 8"
    and s16: "t = SPAN_C \<longrightarrow> k16 = 0" "t = SPAN_AX_EXTRA \<longrightarrow> k16 = 4"
    by blast
  have i8: "\<exists>r. getMaskAdvance8 t w = Inr r \<and> sint r = sint w * sint k8"
    if "- (2 ^ 31) \<le> sint w * sint k8 \<and> sint w * sint k8 < 2 ^ 31" for w
    using that by (simp add: a8 sint_mult_in_range)
  have i16: "\<exists>r. getMaskAdvance16 t w = Inr r \<and> sint r = sint w * sint k16"
    if "- (2 ^ 31) \<le> sint w * sint k16 \<and> sint w * sint k16 < 2 ^ 31" for w
    using that by (simp add: a16 sint_mult_in_range)
  from a8 a16 i8 i16 r8 r16 s8 s16 show ?thesis
    by blast
qed

theorem getMaskAdvance_linear_witness:
  "getMaskAdvance8 SPAN_AX_EXTRA 10 = Inr 20 \<and> getMaskAdvance16 SPAN_AX_EXTRA 10 = Inr 40
   \<and> getMaskAdvance8 SPAN_C 10 = Inr 0 \<and> getMaskAdvance16 SPAN_C 10 = Inr 0"
proof -
  have x: "SPAN_AX_EXTRA < SPAN_COUNT" and c: "SPAN_C < SPAN_COUNT"
    by (simp_all add: SPAN_AX_EXTRA_def SPAN_C_def SPAN_COUNT_def)
  from getMaskAdvance_linear [OF x] obtain k8 k16 where
    "getMaskAdvance8 SPAN_AX_EXTRA 10 = Inr (10 * k8)"
    "getMaskAdvance16 SPAN_AX_EXTRA 10 = Inr (10 * k16)" "k8 = 2" "k16 = 4"
    by blast
  then have "getMaskAdvance8 SPAN_AX_EXTRA 10 = Inr 20 \<and> getMaskAdvance16 SPAN_AX_EXTRA 10 = Inr 40"
    by simp
  moreover from getMaskAdvance_linear [OF c] obtain k8 k16 where
    "getMaskAdvance8 SPAN_C 10 = Inr (10 * k8)"
    "getMaskAdvance16 SPAN_C 10 = Inr (10 * k16)" "k8 = 0" "k16 = 0"
    by blast
  then have "getMaskAdvance8 SPAN_C 10 = Inr 0 \<and> getMaskAdvance16 SPAN_C 10 = Inr 0"
    by simp
  ultimately show ?thesis
    by blast
qed

section \<open>Constant and variant types\<close>

lemma type_field_roundtrip:
  assumes "t < SPAN_COUNT"
  shows "ucast (ucast t :: 3 word) = (t :: 32 word)"
  using span_type_cases [OF assms]
  by (auto simp: SPAN_C_def SPAN_A8_GLYPH_def SPAN_AX_GLYPH_def SPAN_AX_EXTRA_def
      SPAN_ARGB32_GLYPH_def SPAN_ARGBXX_GLYPH_def)

text \<open>
  C4. For every span, whatever its type field holds, exactly one of \<open>isConst\<close> and
  \<open>isVariant\<close> is true: both compare the type with the one threshold \<open>SPAN_V_BEGIN\<close>,
  so there is neither an overlap nor a gap. Every type that \<open>setType\<close> accepts
  (\<open>type < SPAN_COUNT\<close>) is stored unchanged, and the span is then constant exactly when
  that type is below the threshold and variant exactly when it is not.
\<close>

theorem isConst_isVariant_partition:
  "(isConst s \<longleftrightarrow> \<not> isVariant s)
   \<and> (isConst s \<longleftrightarrow> getType s < SPAN_V_BEGIN)
   \<and> (isVariant s \<longleftrightarrow> SPAN_V_BEGIN \<le> getType s)
   \<and> (t < SPAN_COUNT \<longrightarrow>
        (\<exists>s'. setType t s = Inr s' \<and> getType s' = t
           \<and> (isConst s' \<longleftrightarrow> t < SPAN_V_BEGIN) \<and> (isVariant s' \<longleftrightarrow> SPAN_V_BEGIN \<le> t)
           \<and> (isConst s' \<longleftrightarrow> \<not> isVariant s')))"
proof -
  have part: "(isConst r \<longleftrightarrow> \<not> isVariant r) \<and> (isConst r \<longleftrightarrow> getType r < SPAN_V_BEGIN)
      \<and> (isVariant r \<longleftrightarrow> SPAN_V_BEGIN \<le> getType r)" for r :: "'a Span"
    by (auto simp: isConst_def isVariant_def getType_def)
  have "\<exists>s'. setType t s = Inr s' \<and> getType s' = t
      \<and> (isConst s' \<longleftrightarrow> t < SPAN_V_BEGIN) \<and> (isVariant s' \<longleftrightarrow> SPAN_V_BEGIN \<le> t)
      \<and> (isConst s' \<longleftrightarrow> \<not> isVariant s')" if "t < SPAN_COUNT"
  proof -
    have "getType (s\<lparr>m_type := ucast t\<rparr>) = t"
      using that by (simp add: getType_def type_field_roundtrip)
    with that part [of "s\<lparr>m_type := ucast t\<rparr>"] show ?thesis
      by (auto simp: setType_def)
  qed
  with part [of s] show ?thesis
    by blast
qed

theorem isConst_isVariant_partition_witness:
  "(\<exists>s'. setType SPAN_C glyph_span = Inr s' \<and> isConst s' \<and> \<not> isVariant s')
   \<and> (\<exists>s'. setType SPAN_ARGBXX_GLYPH const_span = Inr s' \<and> \<not> isConst s' \<and> isVariant s')"
proof -
  have c: "SPAN_C < SPAN_COUNT" "SPAN_C < SPAN_V_BEGIN"
    and v: "SPAN_ARGBXX_GLYPH < SPAN_COUNT" "\<not> SPAN_ARGBXX_GLYPH < SPAN_V_BEGIN"
    by (simp_all add: SPAN_C_def SPAN_ARGBXX_GLYPH_def SPAN_COUNT_def SPAN_V_BEGIN_def
        SPAN_A8_GLYPH_def)
  from isConst_isVariant_partition [of glyph_span SPAN_C] c
  have "\<exists>s'. setType SPAN_C glyph_span = Inr s' \<and> isConst s' \<and> \<not> isVariant s'"
    by blast
  moreover from isConst_isVariant_partition [of const_span SPAN_ARGBXX_GLYPH] v
  have "\<exists>s'. setType SPAN_ARGBXX_GLYPH const_span = Inr s' \<and> \<not> isConst s' \<and> isVariant s'"
    by blast
  ultimately show ?thesis
    by blast
qed

section \<open>The dispatch table is never partially empty\<close>

lemma fully_populated_portable: "fully_populated fmts (portable_funcs fmts op fmt)"
  by (simp add: fully_populated_def portable_funcs_def list_all_iff)

lemma table_full_init_portable: "table_full ops fmts (init_portable ops fmts)"
  by (simp add: table_full_def init_portable_def list_all_iff fully_populated_portable)

lemma list_all_update: "list_all P xs \<Longrightarrow> P x \<Longrightarrow> list_all P (xs[i := x])"
  by (induction xs arbitrary: i) (auto split: nat.splits)

lemma fully_populated_set_slot:
  "fully_populated fmts b \<Longrightarrow> fully_populated fmts (set_slot sl f b)"
  by (cases sl) (auto simp: fully_populated_def list_all_update)

lemma table_full_install:
  assumes "table_full ops fmts fm"
  shows "table_full ops fmts (install i op fmt sl fm)"
proof (cases "op < length (raster fm) \<and> fmt < length (raster fm ! op)")
  case False
  then have "install i op fmt sl fm = fm"
    by (auto simp: install_def)
  with assms show ?thesis
    by simp
next
  case True
  let ?row = "raster fm ! op"
  from assms True have row: "length ?row = fmts" "list_all (fully_populated fmts) ?row"
    by (auto simp: table_full_def list_all_length)
  with True have "fully_populated fmts (?row ! fmt)"
    by (simp add: list_all_length)
  then have "fully_populated fmts (set_slot sl (Routine i op fmt sl) (?row ! fmt))"
    by (rule fully_populated_set_slot)
  with row have "length (?row[fmt := set_slot sl (Routine i op fmt sl) (?row ! fmt)]) = fmts
      \<and> list_all (fully_populated fmts) (?row[fmt := set_slot sl (Routine i op fmt sl) (?row ! fmt)])"
    by (simp add: list_all_update)
  with assms True show ?thesis
    by (simp add: install_def table_full_def list_all_update)
qed

lemma table_full_apply_override:
  "table_full ops fmts fm \<Longrightarrow> table_full ops fmts (apply_override caps ov fm)"
  by (cases ov) (simp add: apply_override_def table_full_install)

lemma table_full_fold:
  "table_full ops fmts fm \<Longrightarrow> table_full ops fmts (fold (apply_override caps) ovs fm)"
  by (induction ovs arbitrary: fm) (simp_all add: table_full_apply_override)

lemma table_full_init: "table_full ops fmts (init ops fmts caps overrides)"
  by (simp add: init_def table_full_fold table_full_init_portable)

text \<open>
  C2. After initialization, whatever the processor supports and whatever routines the
  faster implementations offer, the lookup of every declared (format, operator) pair
  returns a bundle, and all six slots of the bundle are set: the three constant-source
  pointers, and every pointer of the three variable-source arrays.
\<close>

theorem getRasterOps_fully_populated:
  assumes "0 \<le> op" and "op < int ops" and "0 \<le> fmt" and "fmt < int fmts"
  shows "\<exists>b. getRasterOps (init ops fmts caps overrides) fmt op = Some b
    \<and> cspan b \<noteq> None \<and> cspan_a8 b \<noteq> None \<and> cspan_a8_const b \<noteq> None
    \<and> (\<forall>src < fmts. vspan b ! src \<noteq> None \<and> vspan_a8 b ! src \<noteq> None
          \<and> vspan_a8_const b ! src \<noteq> None)
    \<and> fully_populated fmts b"
proof -
  let ?fm = "init ops fmts caps overrides"
  have full: "table_full ops fmts ?fm"
    by (rule table_full_init)
  from assms have op: "nat op < length (raster ?fm)"
    using full by (simp add: table_full_def)
  with full have row: "length (raster ?fm ! nat op) = fmts"
    and all: "list_all (fully_populated fmts) (raster ?fm ! nat op)"
    by (auto simp: table_full_def list_all_length)
  from assms row have fm_lt: "nat fmt < length (raster ?fm ! nat op)"
    by simp
  with all have pop: "fully_populated fmts (raster ?fm ! nat op ! nat fmt)"
    by (simp add: list_all_length)
  have get: "getRasterOps ?fm fmt op = Some (raster ?fm ! nat op ! nat fmt)"
    using assms op fm_lt by (simp add: getRasterOps_def)
  from pop get show ?thesis
    by (auto simp: fully_populated_def list_all_length)
qed

theorem getRasterOps_fully_populated_witness:
  "\<exists>b. getRasterOps (init 2 3 [SSE2] [(SSE2, 1, 2, Vspan 0), (MMX, 1, 2, Cspan)]) 2 1 = Some b
     \<and> cspan b \<noteq> None \<and> cspan_a8 b \<noteq> None \<and> cspan_a8_const b \<noteq> None
     \<and> vspan b ! 0 \<noteq> None \<and> vspan_a8 b ! 1 \<noteq> None \<and> vspan_a8_const b ! 2 \<noteq> None"
proof -
  have "(0 :: int) \<le> 1" and "(1 :: int) < int 2" and "(0 :: int) \<le> 2" and "(2 :: int) < int 3"
    by simp_all
  from getRasterOps_fully_populated [OF this,
      of "[SSE2]" "[(SSE2, 1, 2, Vspan 0), (MMX, 1, 2, Cspan)]"]
  show ?thesis
    by auto
qed

section \<open>Lifetime of a pattern context\<close>

text \<open>A context in use: initialized and held by someone.\<close>

lemma release_shared:
  assumes "initialized (ctx st)" and "1 < refCount (ctx st)"
  shows "release st = Inr (st\<lparr>ctx := (ctx st)\<lparr>refCount := refCount (ctx st) - 1\<rparr>\<rparr>)"
  using assms by (simp add: release_def Let_def)

lemma release_last:
  assumes "initialized (ctx st)" and "refCount (ctx st) = 1"
  shows "release st =
    Inr (st\<lparr>ctx := (ctx st)\<lparr>refCount := 0, initialized := False\<rparr>,
            allocated := allocated st - owned (payload (ctx st)),
            destroy_calls := Suc (destroy_calls st)\<rparr>)"
  using assms by (simp add: release_def destroy_def Let_def)

lemma step_in_use:
  assumes "step x st = Inr st'"
  shows "initialized (ctx st) \<and> 0 < refCount (ctx st)"
  using assms by (cases x) (auto simp: acquire_def release_def split: if_splits)

lemma step_effect:
  assumes "step x st = Inr st'"
  shows "(0 < refCount (ctx st') \<and> initialized (ctx st')
            \<and> destroy_calls st' = destroy_calls st \<and> allocated st' = allocated st
            \<and> payload (ctx st') = payload (ctx st))
       \<or> (refCount (ctx st') = 0 \<and> \<not> initialized (ctx st')
            \<and> destroy_calls st' = Suc (destroy_calls st)
            \<and> allocated st' = allocated st - owned (payload (ctx st)))"
proof (cases x)
  case Acquire
  with assms show ?thesis
    by (auto simp: acquire_def split: if_splits)
next
  case Release
  from assms have use: "initialized (ctx st)" "0 < refCount (ctx st)"
    using step_in_use by blast+
  show ?thesis
  proof (cases "refCount (ctx st) = 1")
    case True
    with assms Release use show ?thesis
      by (auto simp: release_last)
  next
    case False
    with use have "1 < refCount (ctx st)"
      by simp
    with assms Release use show ?thesis
      by (auto simp: release_shared)
  qed
qed

lemma run_dead:
  assumes "\<not> initialized (ctx st) \<or> refCount (ctx st) = 0" and "run xs st = Inr st'"
  shows "xs = [] \<and> st' = st"
proof (cases xs)
  case Nil
  with assms show ?thesis
    by simp
next
  case (Cons x ys)
  with assms(2) obtain st1 where "step x st = Inr st1"
    by (auto split: sum.splits)
  with assms(1) show ?thesis
    using step_in_use by fastforce
qed

lemma run_destroys_once:
  assumes "initialized (ctx st)" and "0 < refCount (ctx st)" and "run xs st = Inr st'"
  shows "(0 < refCount (ctx st') \<and> initialized (ctx st')
            \<and> destroy_calls st' = destroy_calls st \<and> allocated st' = allocated st)
       \<or> (refCount (ctx st') = 0 \<and> \<not> initialized (ctx st')
            \<and> destroy_calls st' = Suc (destroy_calls st)
            \<and> allocated st' = allocated st - owned (payload (ctx st)))"
  using assms
proof (induction xs arbitrary: st)
  case Nil
  then show ?case
    by simp
next
  case (Cons x xs)
  from Cons.prems(3) obtain st1 where s: "step x st = Inr st1" and r: "run xs st1 = Inr st'"
    by (auto split: sum.splits)
  from step_effect [OF s] show ?case
  proof
    assume live: "0 < refCount (ctx st1) \<and> initialized (ctx st1)
      \<and> destroy_calls st1 = destroy_calls st \<and> allocated st1 = allocated st
      \<and> payload (ctx st1) = payload (ctx st)"
    with Cons.IH [of st1] r show ?case
      by simp
  next
    assume dead: "refCount (ctx st1) = 0 \<and> \<not> initialized (ctx st1)
      \<and> destroy_calls st1 = Suc (destroy_calls st)
      \<and> allocated st1 = allocated st - owned (payload (ctx st))"
    with run_dead [of st1 xs st'] r have "st' = st1"
      by simp
    with dead show ?case
      by simp
  qed
qed

text \<open>
  C8. A release while other holders remain (reference count above 1) only decrements the
  count: \<open>destroy\<close> is not called and nothing is freed. The release of the last
  reference calls \<open>destroy\<close> once and frees what the context owns. Over any sequence of
  acquisitions and releases of a context in use, \<open>destroy\<close> has been called exactly once
  if the count has reached zero and not at all otherwise, and the owned resources stay
  allocated as long as the count is positive.
\<close>

theorem destroy_exactly_once_at_zero:
  assumes "initialized (ctx st)" and "0 < refCount (ctx st)"
  shows "(1 < refCount (ctx st) \<longrightarrow>
      (\<exists>st'. release st = Inr st' \<and> destroy_calls st' = destroy_calls st
         \<and> allocated st' = allocated st \<and> initialized (ctx st')
         \<and> refCount (ctx st') = refCount (ctx st) - 1))
   \<and> (refCount (ctx st) = 1 \<longrightarrow>
      (\<exists>st'. release st = Inr st' \<and> destroy_calls st' = destroy_calls st + 1
         \<and> allocated st' = allocated st - owned (payload (ctx st))
         \<and> refCount (ctx st') = 0 \<and> \<not> initialized (ctx st')))
   \<and> (\<forall>xs st'. run xs st = Inr st' \<longrightarrow>
         destroy_calls st' = destroy_calls st + (if refCount (ctx st') = 0 then 1 else 0)
         \<and> (0 < refCount (ctx st') \<longrightarrow> allocated st' = allocated st)
         \<and> (refCount (ctx st') = 0 \<longrightarrow>
               allocated st' = allocated st - owned (payload (ctx st))))"
proof (intro conjI impI allI)
  assume "1 < refCount (ctx st)"
  with assms(1) show "\<exists>st'. release st = Inr st' \<and> destroy_calls st' = destroy_calls st
      \<and> allocated st' = allocated st \<and> initialized (ctx st')
      \<and> refCount (ctx st') = refCount (ctx st) - 1"
    by (simp add: release_shared)
next
  assume "refCount (ctx st) = 1"
  with assms(1) show "\<exists>st'. release st = Inr st' \<and> destroy_calls st' = destroy_calls st + 1
      \<and> allocated st' = allocated st - owned (payload (ctx st))
      \<and> refCount (ctx st') = 0 \<and> \<not> initialized (ctx st')"
    by (simp add: release_last)
next
  fix xs st'
  assume r: "run xs st = Inr st'"
  from run_destroys_once [OF assms r]
  show "destroy_calls st' = destroy_calls st + (if refCount (ctx st') = 0 then 1 else 0)"
    by auto
  from run_destroys_once [OF assms r]
  show "allocated st' = allocated st" if "0 < refCount (ctx st')"
    using that by auto
  from run_destroys_once [OF assms r]
  show "allocated st' = allocated st - owned (payload (ctx st))" if "refCount (ctx st') = 0"
    using that by auto
qed

theorem destroy_exactly_once_at_zero_witness:
  "(\<exists>st'. release gradient_state = Inr st' \<and> destroy_calls st' = 1
      \<and> allocated st' = {TextureImage 7})
   \<and> (\<exists>st'. run [Acquire, Release] gradient_state = Inr st' \<and> destroy_calls st' = 0
      \<and> allocated st' = {RampTable 4096, TextureImage 7})
   \<and> (\<exists>st'. run [Acquire, Release, Release] gradient_state = Inr st' \<and> destroy_calls st' = 1)"
proof -
  have i: "initialized (ctx gradient_state)" and p: "0 < refCount (ctx gradient_state)"
    and one: "refCount (ctx gradient_state) = 1"
    by (simp_all add: gradient_state_def)
  from destroy_exactly_once_at_zero [OF i p] one
  have "\<exists>st'. release gradient_state = Inr st' \<and> destroy_calls st' = destroy_calls gradient_state + 1
      \<and> allocated st' = allocated gradient_state - owned (payload (ctx gradient_state))"
    by blast
  then have a: "\<exists>st'. release gradient_state = Inr st' \<and> destroy_calls st' = 1
      \<and> allocated st' = {TextureImage 7}"
    by (auto simp: gradient_state_def)
  obtain s1 where r1: "run [Acquire, Release] gradient_state = Inr s1"
    and c1: "refCount (ctx s1) = 1"
    by (simp add: gradient_state_def acquire_def release_def Let_def)
  from destroy_exactly_once_at_zero [OF i p] r1
  have "destroy_calls s1 = destroy_calls gradient_state + (if refCount (ctx s1) = 0 then 1 else 0)
      \<and> (0 < refCount (ctx s1) \<longrightarrow> allocated s1 = allocated gradient_state)"
    by blast
  with c1 r1 have b: "\<exists>st'. run [Acquire, Release] gradient_state = Inr st'
      \<and> destroy_calls st' = 0 \<and> allocated st' = {RampTable 4096, TextureImage 7}"
    by (simp add: gradient_state_def)
  obtain s2 where r2: "run [Acquire, Release, Release] gradient_state = Inr s2"
    and c2: "refCount (ctx s2) = 0"
    by (simp add: gradient_state_def acquire_def release_def destroy_def Let_def)
  from destroy_exactly_once_at_zero [OF i p] r2
  have "destroy_calls s2 = destroy_calls gradient_state + (if refCount (ctx s2) = 0 then 1 else 0)"
    by blast
  with c2 r2 have c: "\<exists>st'. run [Acquire, Release, Release] gradient_state = Inr st'
      \<and> destroy_calls st' = 1"
    by (simp add: gradient_state_def)
  from a b c show ?thesis
    by blast
qed

end
